theory Spec2Isabelle
  imports Main
begin

section \<open>zerologr: a logr.Logger on top of zerolog\<close>

text \<open>
  The repository holds two versions of the package file: \<^verbatim>\<open>src/unnamed/part_001\<close>
  (constants \<^verbatim>\<open>debugVerbosity = 2\<close>, \<^verbatim>\<open>traceVerbosity = 8\<close>, struct field
  \<^verbatim>\<open>verbosity\<close>) and \<^verbatim>\<open>src/zerologr.go\<close> (struct field \<^verbatim>\<open>level\<close>, the literal
  thresholds 2 and 7). The functions \<^verbatim>\<open>clone\<close>, \<^verbatim>\<open>copySlice\<close>, \<^verbatim>\<open>add\<close>, \<^verbatim>\<open>Error\<close>,
  \<^verbatim>\<open>V\<close>, \<^verbatim>\<open>WithName\<close> and \<^verbatim>\<open>WithValues\<close> are the same in both, up to the name of that
  field; \<^verbatim>\<open>Enabled\<close> and \<^verbatim>\<open>Info\<close> differ and are embedded once per file.
\<close>

subsection \<open>Dynamic values\<close>

text \<open>
  A Go \<^verbatim>\<open>interface{}\<close> value with its dynamic type. The only type inspection of the
  package is the assertion \<^verbatim>\<open>key.(string)\<close>, which succeeds on \<open>IString\<close> alone.
  \<open>ISlice\<close> is a \<^verbatim>\<open>[]interface{}\<close> passed as one value (the \<^verbatim>\<open>"args"\<close> dump).
\<close>

datatype iface = IString string | IInt int | IBool bool | INil | ISlice "iface list"

subsection \<open>The sink: zerolog levels, event builders, emitted events\<close>

text \<open>
  zerolog's \<^verbatim>\<open>Level\<close> is a signed 8-bit integer that the package only compares; the
  constants are those of zerolog (\<^verbatim>\<open>go.mod\<close> requires v1.17.2): \<^verbatim>\<open>DebugLevel = 0\<close>
  counting upwards by \<^verbatim>\<open>iota\<close>, and \<^verbatim>\<open>TraceLevel = -1\<close>.
\<close>

type_synonym Level = int

definition TraceLevel :: Level where "TraceLevel = -1"
definition DebugLevel :: Level where "DebugLevel = 0"
definition InfoLevel :: Level where "InfoLevel = 1"
definition WarnLevel :: Level where "WarnLevel = 2"
definition ErrorLevel :: Level where "ErrorLevel = 3"
definition FatalLevel :: Level where "FatalLevel = 4"
definition PanicLevel :: Level where "PanicLevel = 5"
definition NoLevel :: Level where "NoLevel = 6"
definition Disabled :: Level where "Disabled = 7"

text \<open>
  One call on a \<^verbatim>\<open>*zerolog.Event\<close>: \<^verbatim>\<open>Int\<close>, \<^verbatim>\<open>Str\<close>, \<^verbatim>\<open>Interface\<close>, \<^verbatim>\<open>AnErr\<close> (key and
  the message of an \<^verbatim>\<open>errors.New\<close> value), \<^verbatim>\<open>Err\<close> (the error may be \<^verbatim>\<open>nil\<close>) and
  \<^verbatim>\<open>Stack\<close>. What zerolog renders for each call is the sink's business; the model
  records the calls the package makes, in order.
\<close>

datatype field =
    Int_field string int
  | Str_field string string
  | Interface_field string iface
  | AnErr_field string string
  | Err_field "string option"
  | Stack_field

text \<open>
  An event under construction: the \<^verbatim>\<open>*zerolog.Logger\<close> it was asked from, the level
  of the builder (\<^verbatim>\<open>Info()\<close>, \<^verbatim>\<open>Debug()\<close>, \<^verbatim>\<open>Trace()\<close>, \<^verbatim>\<open>Error()\<close>) and the fields
  attached so far.
\<close>

record event =
  ev_logger :: nat
  ev_level :: Level
  ev_fields :: "field list"

definition newEvent :: "nat \<Rightarrow> Level \<Rightarrow> event" where
  "newEvent zl lvl = \<lparr>ev_logger = zl, ev_level = lvl, ev_fields = []\<rparr>"

definition attach :: "field \<Rightarrow> event \<Rightarrow> event" where
  "attach f e = e\<lparr>ev_fields := ev_fields e @ [f]\<rparr>"

subsection \<open>Slices and the store\<close>

text \<open>
  A Go slice is a window on a backing array: the array's address, the offset of the
  window, its length and its capacity. The \<^verbatim>\<open>nil\<close> slice has length and capacity 0.
\<close>

record slice =
  ptr :: nat
  off :: nat
  len :: nat
  cap :: nat

definition nil_slice :: slice where
  "nil_slice = \<lparr>ptr = 0, off = 0, len = 0, cap = 0\<rparr>"

text \<open>
  The state the package runs in: the backing arrays by address with the next unused
  address, zerolog's process-wide level (\<^verbatim>\<open>zerolog.GlobalLevel()\<close>), and the events
  that were finalized with \<^verbatim>\<open>Msg\<close>, oldest first.
\<close>

record state =
  arrays :: "nat \<Rightarrow> iface list"
  next_addr :: nat
  GlobalLevel :: Level
  emitted :: "(event \<times> string) list"

definition slice_read :: "state \<Rightarrow> slice \<Rightarrow> iface list" where
  "slice_read st s = take (len s) (drop (off s) (arrays st (ptr s)))"

definition valid_slice :: "state \<Rightarrow> slice \<Rightarrow> bool" where
  "valid_slice st s \<longleftrightarrow>
     len s \<le> cap s \<and>
     (cap s = 0 \<or> (ptr s < next_addr st \<and> off s + cap s \<le> length (arrays st (ptr s))))"

definition array_write :: "iface list \<Rightarrow> nat \<Rightarrow> iface list \<Rightarrow> iface list" where
  "array_write a i xs = take i a @ xs @ drop (i + length xs) a"

text \<open>\<^verbatim>\<open>make([]interface{}, n)\<close>: a fresh array of \<open>n\<close> nil values.\<close>

definition make_slice :: "nat \<Rightarrow> state \<Rightarrow> slice \<times> state" where
  "make_slice n st =
     (\<lparr>ptr = next_addr st, off = 0, len = n, cap = n\<rparr>,
      st\<lparr>arrays := (arrays st)(next_addr st := replicate n INil),
         next_addr := next_addr st + 1\<rparr>)"

text \<open>
  The builtin \<^verbatim>\<open>copy(dst, src)\<close>: the first \<open>min (len dst) (len src)\<close> elements of
  \<open>src\<close> overwrite the start of \<open>dst\<close>.
\<close>

definition copy_builtin :: "slice \<Rightarrow> slice \<Rightarrow> state \<Rightarrow> state" where
  "copy_builtin dst src st =
     (let xs = take (min (len dst) (len src)) (slice_read st src)
      in st\<lparr>arrays := (arrays st)(ptr dst :=
            array_write (arrays st (ptr dst)) (off dst) xs)\<rparr>)"

text \<open>
  The builtin \<^verbatim>\<open>append(s, xs...)\<close>. While the result fits the capacity of \<open>s\<close> the
  new elements are written into the backing array of \<open>s\<close>, behind its window;
  otherwise a new array is allocated. How much larger than needed the runtime makes
  the new array is left open: \<open>slack\<close> maps the old capacity and the needed length to
  the number of spare elements.
\<close>

definition append_builtin ::
    "(nat \<Rightarrow> nat \<Rightarrow> nat) \<Rightarrow> slice \<Rightarrow> slice \<Rightarrow> state \<Rightarrow> slice \<times> state" where
  "append_builtin slack s xs st =
     (let elems = slice_read st xs; n = len s + length elems in
      if n \<le> cap s then
        (s\<lparr>len := n\<rparr>,
         st\<lparr>arrays := (arrays st)(ptr s :=
            array_write (arrays st (ptr s)) (off s + len s) elems)\<rparr>)
      else
        (let extra = slack (cap s) n; a = next_addr st in
         (\<lparr>ptr = a, off = 0, len = n, cap = n + extra\<rparr>,
          st\<lparr>arrays := (arrays st)(a := slice_read st s @ elems @ replicate extra INil),
             next_addr := a + 1\<rparr>)))"

subsection \<open>The logger\<close>

text \<open>
  \<^verbatim>\<open>type logger struct { l *zerolog.Logger; verbosity int; prefix string;
  values []interface{} }\<close>. The pointer \<^verbatim>\<open>l\<close> is the identity of the sink. The
  verbosity is a Go \<^verbatim>\<open>int\<close> that is only stored and compared with constants.
\<close>

record logger =
  l_zerolog :: nat
  verbosity :: int
  prefix :: string
  "values" :: slice

definition copySlice :: "slice \<Rightarrow> state \<Rightarrow> slice \<times> state" where
  "copySlice in_slice st =
     (let (out, st1) = make_slice (len in_slice) st
      in (out, copy_builtin out in_slice st1))"

definition clone :: "logger \<Rightarrow> state \<Rightarrow> logger \<times> state" where
  "clone lg st =
     (let (vs, st1) = copySlice (values lg) st
      in (lg\<lparr>values := vs\<rparr>, st1))"

subsection \<open>\<^verbatim>\<open>add\<close>: key-value pairs to fields\<close>

text \<open>
  Indexing a slice out of range panics in Go; the model returns the panic.
\<close>

datatype panic = IndexOutOfRange

definition odd_arity_msg :: string where
  "odd_arity_msg = ''odd number of arguments passed as key-value pairs for logging''"

definition non_string_key_msg :: string where
  "non_string_key_msg =
     ''non-string key argument passed to logging, ignoring all later arguments''"

text \<open>The loop of \<^verbatim>\<open>add\<close>, from index \<open>i\<close>.\<close>

function add_loop :: "event \<Rightarrow> iface list \<Rightarrow> nat \<Rightarrow> panic + event" where
  "add_loop e keysAndVals i =
     (if i < length keysAndVals then
        (if i + 1 < length keysAndVals then
           (let key = keysAndVals ! i; val = keysAndVals ! (i + 1) in
            case key of
              IString keyStr \<Rightarrow>
                add_loop (attach (Interface_field keyStr val) e) keysAndVals (i + 2)
            | _ \<Rightarrow>
                Inr (attach Stack_field
                      (attach (AnErr_field ''zerologr-err'' non_string_key_msg)
                        (attach (Interface_field ''invalid key'' key) e))))
         else Inl IndexOutOfRange)
      else Inr e)"
  by pat_completeness auto
termination
  by (relation "measure (\<lambda>(e, keysAndVals, i). length keysAndVals - i)") auto

definition add :: "event \<Rightarrow> iface list \<Rightarrow> panic + event" where
  "add e keysAndVals =
     (if length keysAndVals mod 2 \<noteq> 0 then
        Inr (attach Stack_field
              (attach (AnErr_field ''zerologr-err'' odd_arity_msg)
                (attach (Interface_field ''args'' (ISlice keysAndVals)) e)))
      else add_loop e keysAndVals 0)"

subsection \<open>\<^verbatim>\<open>Enabled\<close>, \<^verbatim>\<open>Info\<close> and \<^verbatim>\<open>Error\<close>\<close>

definition debugVerbosity :: int where "debugVerbosity = 2"
definition traceVerbosity :: int where "traceVerbosity = 8"

text \<open>\<^verbatim>\<open>Enabled\<close> of \<^verbatim>\<open>src/unnamed/part_001\<close>.\<close>

definition Enabled :: "logger \<Rightarrow> state \<Rightarrow> bool" where
  "Enabled lg st =
     (let lvl = (if verbosity lg < debugVerbosity then InfoLevel
                 else if verbosity lg < traceVerbosity then DebugLevel
                 else TraceLevel)
      in if lvl < GlobalLevel st then False else True)"

text \<open>\<^verbatim>\<open>Enabled\<close> of \<^verbatim>\<open>src/zerologr.go\<close>, where the field is called \<^verbatim>\<open>level\<close>.\<close>

definition zerologr_go_Enabled :: "logger \<Rightarrow> state \<Rightarrow> bool" where
  "zerologr_go_Enabled lg st =
     (let lvl = (if verbosity lg < 2 then InfoLevel
                 else if verbosity lg < 7 then DebugLevel
                 else TraceLevel)
      in if lvl < GlobalLevel st then False else True)"

text \<open>
  zerolog's builders \<^verbatim>\<open>l.Info()\<close>, \<^verbatim>\<open>l.Debug()\<close>, \<^verbatim>\<open>l.Trace()\<close> and \<^verbatim>\<open>l.Error()\<close> return
  \<^verbatim>\<open>nil\<close> when their level is below \<^verbatim>\<open>zerolog.GlobalLevel()\<close>, and every method of
  a \<^verbatim>\<open>nil\<close> event, \<^verbatim>\<open>Msg\<close> included, returns at once. The result of a builder is a
  pair: whether the event is live, and the event that the calls build. The package
  makes the same calls on a \<^verbatim>\<open>nil\<close> event as on a live one, so the fields are
  followed in both cases and \<^verbatim>\<open>Msg\<close> hands the event to the sink only when it is
  live. The level and the sampler of the logger itself, which can also make a
  builder return \<^verbatim>\<open>nil\<close>, are inside the sink and not part of the state.
\<close>

definition should :: "Level \<Rightarrow> state \<Rightarrow> bool" where
  "should lvl st = (if lvl < GlobalLevel st then False else True)"

definition builder :: "nat \<Rightarrow> Level \<Rightarrow> state \<Rightarrow> bool \<times> event" where
  "builder zl lvl st = (should lvl st, newEvent zl lvl)"

text \<open>\<^verbatim>\<open>e.Msg(msg)\<close> finalizes the event: a live event is handed to the sink.\<close>

definition Msg :: "bool \<Rightarrow> event \<Rightarrow> string \<Rightarrow> state \<Rightarrow> state" where
  "Msg live e msg st = (if live then st\<lparr>emitted := emitted st @ [(e, msg)]\<rparr> else st)"

text \<open>
  \<^verbatim>\<open>Info\<close> of \<^verbatim>\<open>src/unnamed/part_001\<close>. The variadic \<^verbatim>\<open>keysAndVals\<close> is only read and
  is given by its elements; \<^verbatim>\<open>l.values\<close> is read from the store.
\<close>

definition Info :: "logger \<Rightarrow> string \<Rightarrow> iface list \<Rightarrow> state \<Rightarrow> panic + state" where
  "Info lg msg keysAndVals st =
     (if Enabled lg st then
        (let (live, e0) =
               (if verbosity lg < debugVerbosity then builder (l_zerolog lg) InfoLevel st
                else if verbosity lg < traceVerbosity then builder (l_zerolog lg) DebugLevel st
                else builder (l_zerolog lg) TraceLevel st);
             e1 = attach (Int_field ''verbosity'' (verbosity lg)) e0;
             e2 = (if prefix lg \<noteq> [] then attach (Str_field ''name'' (prefix lg)) e1 else e1)
         in case add e2 (slice_read st (values lg)) of
              Inl p \<Rightarrow> Inl p
            | Inr e3 \<Rightarrow>
               (case add e3 keysAndVals of
                  Inl p \<Rightarrow> Inl p
                | Inr e4 \<Rightarrow> Inr (Msg live e4 msg st)))
      else Inr st)"

text \<open>\<^verbatim>\<open>Info\<close> of \<^verbatim>\<open>src/zerologr.go\<close>.\<close>

definition zerologr_go_Info :: "logger \<Rightarrow> string \<Rightarrow> iface list \<Rightarrow> state \<Rightarrow> panic + state" where
  "zerologr_go_Info lg msg keysAndVals st =
     (if zerologr_go_Enabled lg st then
        (let (live, e0) = builder (l_zerolog lg) InfoLevel st;
             e1 = attach (Int_field ''level'' (verbosity lg)) e0;
             e2 = (if prefix lg \<noteq> [] then attach (Str_field ''name'' (prefix lg)) e1 else e1)
         in case add e2 (slice_read st (values lg)) of
              Inl p \<Rightarrow> Inl p
            | Inr e3 \<Rightarrow>
               (case add e3 keysAndVals of
                  Inl p \<Rightarrow> Inl p
                | Inr e4 \<Rightarrow> Inr (Msg live e4 msg st)))
      else Inr st)"

text \<open>\<^verbatim>\<open>Error\<close>, the same in both files. A \<^verbatim>\<open>nil\<close> error is \<open>None\<close>.\<close>

definition Error :: "logger \<Rightarrow> string option \<Rightarrow> string \<Rightarrow> iface list \<Rightarrow> state \<Rightarrow> panic + state" where
  "Error lg err msg keysAndVals st =
     (let (live, e0) = builder (l_zerolog lg) ErrorLevel st;
          e1 = attach (Err_field err) e0;
          e2 = (if prefix lg \<noteq> [] then attach (Str_field ''name'' (prefix lg)) e1 else e1)
      in case add e2 (slice_read st (values lg)) of
           Inl p \<Rightarrow> Inl p
         | Inr e3 \<Rightarrow>
            (case add e3 keysAndVals of
               Inl p \<Rightarrow> Inl p
             | Inr e4 \<Rightarrow> Inr (Msg live e4 msg st)))"

subsection \<open>Construction and derivation\<close>

record Options =
  Name :: string
  Logger :: "nat option"

text \<open>
  \<^verbatim>\<open>NewWithOptions\<close>: without a logger in the options a default one is built;
  \<open>default_zl\<close> is the address it gets.
\<close>

definition NewWithOptions :: "nat \<Rightarrow> Options \<Rightarrow> logger" where
  "NewWithOptions default_zl opts =
     \<lparr>l_zerolog = (case Logger opts of None \<Rightarrow> default_zl | Some zl \<Rightarrow> zl),
      verbosity = 0,
      prefix = Name opts,
      values = nil_slice\<rparr>"

definition New :: "nat \<Rightarrow> logger" where
  "New default_zl = NewWithOptions default_zl \<lparr>Name = [], Logger = None\<rparr>"

definition V :: "logger \<Rightarrow> int \<Rightarrow> state \<Rightarrow> logger \<times> state" where
  "V lg v st = (let (new, st1) = clone lg st in (new\<lparr>verbosity := v\<rparr>, st1))"

definition WithName :: "logger \<Rightarrow> string \<Rightarrow> state \<Rightarrow> logger \<times> state" where
  "WithName lg name st =
     (let (new, st1) = clone lg st;
          new1 = (if length (prefix lg) > 0 then new\<lparr>prefix := prefix lg @ ''/''\<rparr> else new)
      in (new1\<lparr>prefix := prefix new1 @ name\<rparr>, st1))"

text \<open>The variadic \<^verbatim>\<open>kvList\<close> is a slice in the store, read by \<^verbatim>\<open>append\<close>.\<close>

definition WithValues ::
    "(nat \<Rightarrow> nat \<Rightarrow> nat) \<Rightarrow> logger \<Rightarrow> slice \<Rightarrow> state \<Rightarrow> logger \<times> state" where
  "WithValues slack lg kvList st =
     (let (new, st1) = clone lg st;
          (vs, st2) = append_builtin slack (values new) kvList st1
      in (new\<lparr>values := vs\<rparr>, st2))"

subsection \<open>The specification's words\<close>

text \<open>
  The tier of a verbosity as the specification states it: INFO below 2, DEBUG from
  2 and below 8, TRACE from 8.
\<close>

definition spec_tier :: "int \<Rightarrow> Level" where
  "spec_tier v = (if v < 2 then InfoLevel else if v < 8 then DebugLevel else TraceLevel)"

text \<open>
  The fields the specification's \<^verbatim>\<open>encodeFields\<close> attaches: policy A for an odd
  number of arguments; otherwise pair by pair, stopping with policy B at the first
  key that is not text.
\<close>

fun spec_encodePairs :: "iface list \<Rightarrow> field list" where
  "spec_encodePairs (IString k # v # rest) = Interface_field k v # spec_encodePairs rest"
| "spec_encodePairs (key # v # rest) =
     [Interface_field ''invalid key'' key,
      AnErr_field ''zerologr-err'' non_string_key_msg,
      Stack_field]"
| "spec_encodePairs _ = []"

definition spec_encodeFields :: "iface list \<Rightarrow> field list" where
  "spec_encodeFields pairs =
     (if odd (length pairs) then
        [Interface_field ''args'' (ISlice pairs),
         AnErr_field ''zerologr-err'' odd_arity_msg,
         Stack_field]
      else spec_encodePairs pairs)"

text \<open>A sequence of pairs with text keys, flattened to \<open>[key1, val1, key2, val2, ...]\<close>.\<close>

fun flatten_pairs :: "(string \<times> iface) list \<Rightarrow> iface list" where
  "flatten_pairs [] = []"
| "flatten_pairs ((k, v) # ps) = IString k # v # flatten_pairs ps"

definition pair_fields :: "(string \<times> iface) list \<Rightarrow> field list" where
  "pair_fields ps = map (\<lambda>(k, v). Interface_field k v) ps"

definition is_text :: "iface \<Rightarrow> bool" where
  "is_text x = (case x of IString s \<Rightarrow> True | _ \<Rightarrow> False)"

subsection \<open>Auxiliary notions for the statements\<close>

text \<open>An event with further fields attached behind those it has.\<close>

definition with_fields :: "field list \<Rightarrow> event \<Rightarrow> event" where
  "with_fields fs e = e\<lparr>ev_fields := ev_fields e @ fs\<rparr>"

text \<open>
  \<open>frame st st'\<close>: from \<open>st\<close> to \<open>st'\<close> arrays were only allocated; every array
  that exists in \<open>st\<close> has the same elements in \<open>st'\<close>, and the sink is untouched.
\<close>

definition frame :: "state \<Rightarrow> state \<Rightarrow> bool" where
  "frame st st' \<longleftrightarrow>
     next_addr st \<le> next_addr st' \<and>
     (\<forall>a < next_addr st. arrays st' a = arrays st a) \<and>
     GlobalLevel st' = GlobalLevel st \<and> emitted st' = emitted st"

text \<open>A process in which nothing was allocated or emitted, with global level \<open>g\<close>.\<close>

definition init_state :: "Level \<Rightarrow> state" where
  "init_state g = \<lparr>arrays = (\<lambda>a. []), next_addr = 0, GlobalLevel = g, emitted = []\<rparr>"

text \<open>
  A store with three arrays: one of capacity 4 that holds the pair \<open>("x", 0)\<close> in
  its first two cells, and the argument arrays \<open>["a", 1]\<close> and \<open>["b", 2]\<close>.
\<close>

definition tree_state :: state where
  "tree_state =
     \<lparr>arrays = (\<lambda>a. if a = 0 then [IString ''x'', IInt 0, INil, INil]
                     else if a = 1 then [IString ''a'', IInt 1]
                     else if a = 2 then [IString ''b'', IInt 2]
                     else []),
      next_addr = 3, GlobalLevel = InfoLevel, emitted = []\<rparr>"

definition tree_root :: logger where
  "tree_root = \<lparr>l_zerolog = 0, verbosity = 0, prefix = [],
                values = \<lparr>ptr = 0, off = 0, len = 2, cap = 4\<rparr>\<rparr>"

definition args_a :: slice where "args_a = \<lparr>ptr = 1, off = 0, len = 2, cap = 2\<rparr>"
definition args_b :: slice where "args_b = \<lparr>ptr = 2, off = 0, len = 2, cap = 2\<rparr>"

text \<open>
  Two sibling derivations from \<open>tree_root\<close>, one after the other, by a runtime that
  doubles what is needed when it allocates.
\<close>

definition branch_a :: "logger \<times> state" where
  "branch_a = WithValues (\<lambda>c n. n) tree_root args_a tree_state"

definition branch_b :: "logger \<times> state" where
  "branch_b = WithValues (\<lambda>c n. n) tree_root args_b (snd branch_a)"

definition branch_v :: "logger \<times> state" where
  "branch_v = V tree_root 3 (snd branch_b)"

definition branch_n :: "logger \<times> state" where
  "branch_n = WithName tree_root ''db'' (snd branch_v)"

section \<open>Properties\<close>

subsection \<open>Event builders\<close>

lemma with_fields_Nil: "with_fields [] e = e"
  by (simp add: with_fields_def)

lemma with_fields_attach: "with_fields fs (attach f e) = with_fields (f # fs) e"
  by (simp add: with_fields_def attach_def)

lemma with_fields_twice: "with_fields gs (with_fields fs e) = with_fields (fs @ gs) e"
  by (simp add: with_fields_def)

lemma with_fields_newEvent:
  "with_fields fs (newEvent zl lvl) = \<lparr>ev_logger = zl, ev_level = lvl, ev_fields = fs\<rparr>"
  by (simp add: with_fields_def newEvent_def)

lemma attach_newEvent:
  "attach f (newEvent zl lvl) = \<lparr>ev_logger = zl, ev_level = lvl, ev_fields = [f]\<rparr>"
  by (simp add: attach_def newEvent_def)

subsection \<open>\<^verbatim>\<open>add\<close> attaches what the specification's \<^verbatim>\<open>encodeFields\<close> says\<close>

lemma add_loop_spec:
  "i \<le> length kvs \<Longrightarrow> even (length kvs - i) \<Longrightarrow>
   add_loop e kvs i = Inr (with_fields (spec_encodePairs (drop i kvs)) e)"
proof (induction e kvs i rule: add_loop.induct)
  case (1 e kvs i)
  show ?case
  proof (cases "i < length kvs")
    case False
    with "1.prems" show ?thesis by (simp add: with_fields_Nil)
  next
    case True
    have "length kvs - i \<noteq> 1"
      using "1.prems"(2) by (metis odd_one)
    with True have lt: "i + 1 < length kvs"
      by arith
    have dr: "drop i kvs = kvs ! i # kvs ! (i + 1) # drop (i + 2) kvs"
      using True lt by (simp add: Cons_nth_drop_Suc)
    have ev: "i + 2 \<le> length kvs" "even (length kvs - (i + 2))"
      using lt "1.prems" by auto
    show ?thesis
    proof (cases "kvs ! i")
      case (IString keyStr)
      have "add_loop e kvs i =
            add_loop (attach (Interface_field keyStr (kvs ! (i + 1))) e) kvs (i + 2)"
        using True lt IString by (subst add_loop.simps) simp
      also have "\<dots> = Inr (with_fields (spec_encodePairs (drop (i + 2) kvs))
                           (attach (Interface_field keyStr (kvs ! (i + 1))) e))"
        using "1.IH"[OF True lt refl refl IString ev] .
      finally show ?thesis
        by (simp add: dr IString with_fields_attach)
    qed (use True lt dr in \<open>subst add_loop.simps, simp add: with_fields_def attach_def\<close>)+
  qed
qed

lemma add_spec: "add e kvs = Inr (with_fields (spec_encodeFields kvs) e)"
proof (cases "odd (length kvs)")
  case True
  then show ?thesis
    by (simp add: add_def spec_encodeFields_def with_fields_def attach_def
        odd_iff_mod_2_eq_one)
next
  case False
  then show ?thesis
    using add_loop_spec[of 0 kvs e]
    by (simp add: add_def spec_encodeFields_def even_iff_mod_2_eq_zero)
qed

lemma length_flatten_pairs: "length (flatten_pairs ps) = 2 * length ps"
  by (induction ps rule: flatten_pairs.induct) simp_all

lemma spec_encodePairs_flatten:
  "spec_encodePairs (flatten_pairs ps @ xs) = pair_fields ps @ spec_encodePairs xs"
  by (induction ps rule: flatten_pairs.induct) (simp_all add: pair_fields_def)

lemma spec_encodePairs_non_text:
  "\<not> is_text key \<Longrightarrow>
   spec_encodePairs (key # v # rest) =
     [Interface_field ''invalid key'' key,
      AnErr_field ''zerologr-err'' non_string_key_msg,
      Stack_field]"
  by (cases key) (simp_all add: is_text_def)

lemma spec_encodeFields_flatten: "spec_encodeFields (flatten_pairs ps) = pair_fields ps"
  using spec_encodePairs_flatten[of ps "[]"]
  by (simp add: spec_encodeFields_def length_flatten_pairs)

lemma spec_encodeFields_non_text:
  assumes "\<not> is_text key" and "even (length rest)"
  shows "spec_encodeFields (flatten_pairs ps @ key # v # rest) =
         pair_fields ps @
           [Interface_field ''invalid key'' key,
            AnErr_field ''zerologr-err'' non_string_key_msg,
            Stack_field]"
  using assms
  by (simp add: spec_encodeFields_def length_flatten_pairs spec_encodePairs_flatten
      spec_encodePairs_non_text)

text \<open>
  Every sequence of even length is a run of pairs with text keys, either to its end
  or up to a first key that is not text.
\<close>

lemma even_length_cases:
  "even (length xs) \<Longrightarrow>
   (\<exists>ps. xs = flatten_pairs ps) \<or>
   (\<exists>ps key v rest. xs = flatten_pairs ps @ key # v # rest \<and> \<not> is_text key
      \<and> even (length rest))"
proof (induction xs rule: induct_list012)
  case 1
  have "[] = flatten_pairs []" by simp
  then show ?case by blast
next
  case (2 x)
  then show ?case by simp
next
  case (3 x y zs)
  from 3 have ev: "even (length zs)" by simp
  show ?case
  proof (cases "is_text x")
    case True
    then obtain k where k: "x = IString k"
      by (cases x) (simp_all add: is_text_def)
    from 3 ev consider ps where "zs = flatten_pairs ps"
      | ps key w r where "zs = flatten_pairs ps @ key # w # r" "\<not> is_text key"
          "even (length r)"
      by blast
    then show ?thesis
    proof cases
      case 1
      then have "x # y # zs = flatten_pairs ((k, y) # ps)"
        using k by simp
      then show ?thesis by blast
    next
      case 2
      then have "x # y # zs = flatten_pairs ((k, y) # ps) @ key # w # r"
        using k by simp
      with 2 show ?thesis by blast
    qed
  next
    case False
    with ev have "x # y # zs = flatten_pairs [] @ x # y # zs \<and> \<not> is_text x
        \<and> even (length zs)"
      by simp
    then show ?thesis by blast
  qed
qed

subsection \<open>Malformed arguments of \<^verbatim>\<open>add\<close>\<close>

text \<open>
  Claim C3. For every sequence of odd length, \<^verbatim>\<open>add\<close> attaches the whole sequence
  under \<^verbatim>\<open>"args"\<close>, then the error field \<^verbatim>\<open>"zerologr-err"\<close> with the message
  "odd number of arguments passed as key-value pairs for logging", then the stack
  field, and nothing else: no pair is encoded. For every sequence, of odd length or
  not, \<^verbatim>\<open>add\<close> returns an event and never panics.
\<close>

theorem add_odd_arity:
  "(odd (length keysAndVals) \<longrightarrow>
      add e keysAndVals =
        Inr (e\<lparr>ev_fields := ev_fields e @
               [Interface_field ''args'' (ISlice keysAndVals),
                AnErr_field ''zerologr-err''
                  ''odd number of arguments passed as key-value pairs for logging'',
                Stack_field]\<rparr>))
   \<and> (\<exists>e'. add e keysAndVals = Inr e')"
proof
  show "odd (length keysAndVals) \<longrightarrow>
      add e keysAndVals =
        Inr (e\<lparr>ev_fields := ev_fields e @
               [Interface_field ''args'' (ISlice keysAndVals),
                AnErr_field ''zerologr-err''
                  ''odd number of arguments passed as key-value pairs for logging'',
                Stack_field]\<rparr>)"
    by (simp add: add_spec spec_encodeFields_def with_fields_def odd_arity_msg_def)
  show "\<exists>e'. add e keysAndVals = Inr e'"
    by (simp add: add_spec)
qed

theorem add_odd_arity_witness:
  "odd (length [IString ''k1'', IInt 1, IString ''k2''])
   \<and> add (newEvent 0 InfoLevel) [IString ''k1'', IInt 1, IString ''k2''] =
       Inr \<lparr>ev_logger = 0, ev_level = InfoLevel,
            ev_fields =
              [Interface_field ''args'' (ISlice [IString ''k1'', IInt 1, IString ''k2'']),
               AnErr_field ''zerologr-err''
                 ''odd number of arguments passed as key-value pairs for logging'',
               Stack_field]\<rparr>"
  using add_odd_arity [of "[IString ''k1'', IInt 1, IString ''k2'']" "newEvent 0 InfoLevel"]
  by (simp add: newEvent_def)

text \<open>
  Claim C4. Let a sequence of even length start with pairs whose keys are text and
  let its next key, at position \<open>2 * length ps\<close>, not be text. Then \<^verbatim>\<open>add\<close> attaches
  one field per pair before that position, in order, then the offending key under
  \<^verbatim>\<open>"invalid key"\<close>, the error field \<^verbatim>\<open>"zerologr-err"\<close> with the message "non-string
  key argument passed to logging, ignoring all later arguments" and the stack
  field; the pairs from that position on leave no field. If every key is text,
  every pair becomes one field.
\<close>

theorem add_non_text_key:
  "(\<not> is_text key \<and> even (length rest) \<longrightarrow>
      add e (flatten_pairs ps @ key # v # rest) =
        Inr (e\<lparr>ev_fields := ev_fields e @ pair_fields ps @
               [Interface_field ''invalid key'' key,
                AnErr_field ''zerologr-err''
                  ''non-string key argument passed to logging, ignoring all later arguments'',
                Stack_field]\<rparr>))
   \<and> add e (flatten_pairs ps) = Inr (e\<lparr>ev_fields := ev_fields e @ pair_fields ps\<rparr>)"
  by (simp add: add_spec spec_encodeFields_non_text spec_encodeFields_flatten
      with_fields_def non_string_key_msg_def)

theorem add_non_text_key_witness:
  "\<not> is_text (IInt 42) \<and> even (length [IString ''k2'', IString ''v2''])
   \<and> add (newEvent 0 InfoLevel)
         [IString ''k0'', IBool True, IInt 42, IString ''v'', IString ''k2'', IString ''v2''] =
       Inr \<lparr>ev_logger = 0, ev_level = InfoLevel,
            ev_fields =
              [Interface_field ''k0'' (IBool True),
               Interface_field ''invalid key'' (IInt 42),
               AnErr_field ''zerologr-err''
                 ''non-string key argument passed to logging, ignoring all later arguments'',
               Stack_field]\<rparr>
   \<and> add (newEvent 0 InfoLevel) [IString ''k0'', IBool True] =
       Inr \<lparr>ev_logger = 0, ev_level = InfoLevel,
            ev_fields = [Interface_field ''k0'' (IBool True)]\<rparr>"
  using add_non_text_key [of "IInt 42" "[IString ''k2'', IString ''v2'']"
      "newEvent 0 InfoLevel" "[(''k0'', IBool True)]" "IString ''v''"]
  by (simp add: newEvent_def is_text_def pair_fields_def)

subsection \<open>\<^verbatim>\<open>Enabled\<close>, \<^verbatim>\<open>Info\<close> and \<^verbatim>\<open>Error\<close> in closed form\<close>

lemma Enabled_spec_tier: "Enabled lg st \<longleftrightarrow> GlobalLevel st \<le> spec_tier (verbosity lg)"
  by (simp add: Enabled_def spec_tier_def debugVerbosity_def traceVerbosity_def Let_def)

lemma zerologr_go_Enabled_tier:
  "zerologr_go_Enabled lg st \<longleftrightarrow>
   GlobalLevel st \<le> (if verbosity lg < 2 then InfoLevel
                      else if verbosity lg < 7 then DebugLevel else TraceLevel)"
  by (simp add: zerologr_go_Enabled_def Let_def)

lemma Info_event:
  "Info lg msg kvs st =
     (if Enabled lg st then
        Inr (st\<lparr>emitted := emitted st @
          [(\<lparr>ev_logger = l_zerolog lg, ev_level = spec_tier (verbosity lg),
             ev_fields = Int_field ''verbosity'' (verbosity lg) #
               (if prefix lg = [] then [] else [Str_field ''name'' (prefix lg)]) @
               spec_encodeFields (slice_read st (values lg)) @ spec_encodeFields kvs\<rparr>,
            msg)]\<rparr>)
      else Inr st)"
  by (simp add: Info_def Enabled_def builder_def should_def add_spec Let_def spec_tier_def
      debugVerbosity_def traceVerbosity_def with_fields_def attach_def newEvent_def Msg_def)

lemma zerologr_go_Info_event:
  "zerologr_go_Info lg msg kvs st =
     (if zerologr_go_Enabled lg st then
        Inr (st\<lparr>emitted := emitted st @
          [(\<lparr>ev_logger = l_zerolog lg, ev_level = InfoLevel,
             ev_fields = Int_field ''level'' (verbosity lg) #
               (if prefix lg = [] then [] else [Str_field ''name'' (prefix lg)]) @
               spec_encodeFields (slice_read st (values lg)) @ spec_encodeFields kvs\<rparr>,
            msg)]\<rparr>)
      else Inr st)"
  by (simp add: zerologr_go_Info_def zerologr_go_Enabled_def builder_def should_def add_spec
      Let_def with_fields_def attach_def newEvent_def Msg_def InfoLevel_def DebugLevel_def
      TraceLevel_def)

lemma Error_event:
  "Error lg err msg kvs st =
     (if GlobalLevel st \<le> ErrorLevel then
        Inr (st\<lparr>emitted := emitted st @
          [(\<lparr>ev_logger = l_zerolog lg, ev_level = ErrorLevel,
             ev_fields = Err_field err #
               (if prefix lg = [] then [] else [Str_field ''name'' (prefix lg)]) @
               spec_encodeFields (slice_read st (values lg)) @ spec_encodeFields kvs\<rparr>,
            msg)]\<rparr>)
      else Inr st)"
  by (simp add: Error_def builder_def should_def add_spec Let_def with_fields_def attach_def
      newEvent_def Msg_def)

lemma slice_read_nil [simp]: "slice_read st nil_slice = []"
  by (simp add: slice_read_def nil_slice_def)

lemma spec_encodeFields_Nil [simp]: "spec_encodeFields [] = []"
  by (simp add: spec_encodeFields_def)

subsection \<open>Errors past \<^verbatim>\<open>Enabled\<close>, silent disabled calls\<close>

text \<open>
  Claim C5, as stated, at the global level \<^verbatim>\<open>Disabled\<close>: \<^verbatim>\<open>Error\<close> on a fresh root
  returns with the state as it was, and that state has no event. The builder
  \<^verbatim>\<open>l.l.Error()\<close> gave \<^verbatim>\<open>nil\<close>: it is not so that the error is emitted whatever
  the global level.
\<close>

theorem Error_dropped_above_ErrorLevel:
  "Error (New 0) (Some ''boom'') ''failed'' [IString ''a'', IInt 1] (init_state Disabled) =
     Inr (init_state Disabled)
   \<and> emitted (init_state Disabled) = []"
  by (simp add: Error_event init_state_def Disabled_def ErrorLevel_def)

text \<open>
  Claim C5, amended. \<^verbatim>\<open>Error\<close> does not consult \<^verbatim>\<open>Enabled\<close> or the verbosity: for
  every verbosity \<open>v\<close> of the instance and every global level \<open>g\<close> of the sink that
  is at most \<^verbatim>\<open>ErrorLevel\<close>, \<^verbatim>\<open>Error\<close> hands exactly one event to the sink, from the
  \<^verbatim>\<open>Error()\<close> builder, whose first field is the supplied error, and \<open>v\<close> does not
  show in it. When \<open>g\<close> is above \<^verbatim>\<open>ErrorLevel\<close> the builder gives no event and
  nothing reaches the sink.
\<close>

theorem Error_not_gated_by_Enabled:
  "(g \<le> ErrorLevel \<longrightarrow>
      Error (lg\<lparr>verbosity := v\<rparr>) err msg keysAndVals (st\<lparr>GlobalLevel := g\<rparr>) =
        Inr (st\<lparr>GlobalLevel := g,
                emitted := emitted st @
                  [(\<lparr>ev_logger = l_zerolog lg, ev_level = ErrorLevel,
                     ev_fields = Err_field err #
                       (if prefix lg = [] then [] else [Str_field ''name'' (prefix lg)]) @
                       spec_encodeFields (slice_read st (values lg)) @
                       spec_encodeFields keysAndVals\<rparr>,
                    msg)]\<rparr>))
   \<and> (ErrorLevel < g \<longrightarrow>
      Error (lg\<lparr>verbosity := v\<rparr>) err msg keysAndVals (st\<lparr>GlobalLevel := g\<rparr>) =
        Inr (st\<lparr>GlobalLevel := g\<rparr>))"
  by (simp add: Error_event slice_read_def)

theorem Error_not_gated_by_Enabled_witness:
  "WarnLevel \<le> ErrorLevel
   \<and> \<not> Enabled ((New 0)\<lparr>verbosity := 100\<rparr>) ((init_state InfoLevel)\<lparr>GlobalLevel := WarnLevel\<rparr>)
   \<and> Error ((New 0)\<lparr>verbosity := 100\<rparr>) (Some ''boom'') ''failed'' [IString ''a'', IInt 1]
        ((init_state InfoLevel)\<lparr>GlobalLevel := WarnLevel\<rparr>) =
      Inr ((init_state InfoLevel)\<lparr>GlobalLevel := WarnLevel,
             emitted :=
               [(\<lparr>ev_logger = 0, ev_level = ErrorLevel,
                  ev_fields = [Err_field (Some ''boom''), Interface_field ''a'' (IInt 1)]\<rparr>,
                 ''failed'')]\<rparr>)
   \<and> ErrorLevel < Disabled
   \<and> Error ((New 0)\<lparr>verbosity := 100\<rparr>) (Some ''boom'') ''failed'' [IString ''a'', IInt 1]
        ((init_state InfoLevel)\<lparr>GlobalLevel := Disabled\<rparr>) =
      Inr ((init_state InfoLevel)\<lparr>GlobalLevel := Disabled\<rparr>)"
proof -
  have l: "WarnLevel \<le> ErrorLevel" "ErrorLevel < Disabled"
    by (simp_all add: WarnLevel_def ErrorLevel_def Disabled_def)
  have d: "\<not> Enabled ((New 0)\<lparr>verbosity := 100\<rparr>)
      ((init_state InfoLevel)\<lparr>GlobalLevel := WarnLevel\<rparr>)"
    by (simp add: Enabled_spec_tier spec_tier_def TraceLevel_def WarnLevel_def)
  have e: "spec_encodeFields [IString ''a'', IInt 1] = [Interface_field ''a'' (IInt 1)]"
    using spec_encodeFields_flatten [of "[(''a'', IInt 1)]"] by (simp add: pair_fields_def)
  have p: "prefix (New 0) = []" "l_zerolog (New 0) = 0" "values (New 0) = nil_slice"
    "emitted (init_state InfoLevel) = []"
    by (simp_all add: New_def NewWithOptions_def init_state_def)
  from Error_not_gated_by_Enabled [where lg = "New 0" and v = 100 and err = "Some ''boom''"
      and msg = "''failed''" and keysAndVals = "[IString ''a'', IInt 1]"
      and st = "init_state InfoLevel" and g = WarnLevel]
    Error_not_gated_by_Enabled [where lg = "New 0" and v = 100 and err = "Some ''boom''"
      and msg = "''failed''" and keysAndVals = "[IString ''a'', IInt 1]"
      and st = "init_state InfoLevel" and g = Disabled]
    l d
  show ?thesis
    by (simp add: e p)
qed

text \<open>
  Claim C6. When \<^verbatim>\<open>Enabled\<close> is false, \<^verbatim>\<open>Info\<close> returns with the state as it was:
  nothing is handed to the sink, and the arguments play no part, well-formed or
  not. This holds for \<^verbatim>\<open>Info\<close> of both files, each with its own \<^verbatim>\<open>Enabled\<close>.
\<close>

theorem Info_disabled_noop:
  "(\<not> Enabled lg st \<longrightarrow> Info lg msg keysAndVals st = Inr st)
   \<and> (\<not> zerologr_go_Enabled lg st \<longrightarrow> zerologr_go_Info lg msg keysAndVals st = Inr st)"
  by (simp add: Info_def zerologr_go_Info_def)

theorem Info_disabled_noop_witness:
  "\<not> Enabled (New 0) (init_state WarnLevel)
   \<and> Info (New 0) ''hello'' [IInt 42] (init_state WarnLevel) = Inr (init_state WarnLevel)
   \<and> \<not> zerologr_go_Enabled (New 0) (init_state WarnLevel)
   \<and> zerologr_go_Info (New 0) ''hello'' [IInt 42] (init_state WarnLevel) =
       Inr (init_state WarnLevel)"
proof -
  have d: "\<not> Enabled (New 0) (init_state WarnLevel)"
    by (simp add: Enabled_spec_tier spec_tier_def New_def NewWithOptions_def init_state_def
        WarnLevel_def InfoLevel_def)
  have z: "\<not> zerologr_go_Enabled (New 0) (init_state WarnLevel)"
    by (simp add: zerologr_go_Enabled_tier New_def NewWithOptions_def init_state_def
        WarnLevel_def InfoLevel_def)
  from d z Info_disabled_noop [of "New 0" "init_state WarnLevel" "''hello''" "[IInt 42]"]
  show ?thesis by simp
qed

subsection \<open>Names and verbosity of derived loggers\<close>

text \<open>
  Claim C7. \<^verbatim>\<open>WithName\<close> returns an instance whose name is the old name, a slash and
  the segment when the old name is not empty, and the segment alone when it is; the
  sink and the verbosity are those of the source. From a root with the empty
  name, \<^verbatim>\<open>WithName("a")\<close> then \<^verbatim>\<open>WithName("b")\<close> gives the name \<^verbatim>\<open>a/b\<close>.
\<close>

theorem WithName_prefix:
  "prefix (fst (WithName lg name st)) =
     (if prefix lg \<noteq> [] then prefix lg @ ''/'' @ name else name)
   \<and> l_zerolog (fst (WithName lg name st)) = l_zerolog lg
   \<and> verbosity (fst (WithName lg name st)) = verbosity lg
   \<and> (prefix root = [] \<longrightarrow>
        prefix (fst (WithName root ''a'' st)) = ''a''
        \<and> prefix (fst (WithName (fst (WithName root ''a'' st)) ''b''
             (snd (WithName root ''a'' st)))) = ''a/b'')"
  by (simp add: WithName_def clone_def copySlice_def make_slice_def Let_def
      split: prod.splits)

theorem WithName_prefix_witness:
  "prefix (New 0) = []
   \<and> prefix (fst (WithName (NewWithOptions 0 \<lparr>Name = ''svc'', Logger = Some 5\<rparr>) ''db''
        (init_state InfoLevel))) = ''svc/db''
   \<and> l_zerolog (fst (WithName (NewWithOptions 0 \<lparr>Name = ''svc'', Logger = Some 5\<rparr>) ''db''
        (init_state InfoLevel))) = 5
   \<and> prefix (fst (WithName (New 0) ''a'' (init_state InfoLevel))) = ''a''
   \<and> prefix (fst (WithName (fst (WithName (New 0) ''a'' (init_state InfoLevel))) ''b''
        (snd (WithName (New 0) ''a'' (init_state InfoLevel))))) = ''a/b''"
  using WithName_prefix [of "NewWithOptions 0 \<lparr>Name = ''svc'', Logger = Some 5\<rparr>" "''db''"
      "init_state InfoLevel" "New 0"]
    WithName_prefix [of "New 0" "''a''" "init_state InfoLevel" "New 0"]
  by (simp add: New_def NewWithOptions_def)

text \<open>
  Claim C9. \<^verbatim>\<open>V\<close> checks nothing: for every integer \<open>v\<close>, negative ones included, the
  instance it returns has verbosity \<open>v\<close>. When \<open>v < 2\<close> that instance is on the INFO
  tier: \<^verbatim>\<open>Enabled\<close> holds exactly when the global level is at most \<^verbatim>\<open>InfoLevel\<close>, and
  an enabled \<^verbatim>\<open>Info\<close> hands the sink one event from the \<^verbatim>\<open>Info()\<close> builder. Both
  files agree on this.
\<close>

theorem V_unchecked:
  "verbosity (fst (V lg v st)) = v
   \<and> (v < 2 \<longrightarrow>
        (Enabled (fst (V lg v st)) s \<longleftrightarrow> GlobalLevel s \<le> InfoLevel)
        \<and> (zerologr_go_Enabled (fst (V lg v st)) s \<longleftrightarrow> GlobalLevel s \<le> InfoLevel)
        \<and> (GlobalLevel s \<le> InfoLevel \<longrightarrow>
             Info (fst (V lg v st)) msg kvs s =
               Inr (s\<lparr>emitted := emitted s @
                 [(\<lparr>ev_logger = l_zerolog lg, ev_level = InfoLevel,
                    ev_fields = Int_field ''verbosity'' v #
                      (if prefix lg = [] then [] else [Str_field ''name'' (prefix lg)]) @
                      spec_encodeFields (slice_read s (values (fst (V lg v st)))) @
                      spec_encodeFields kvs\<rparr>,
                   msg)]\<rparr>)
             \<and> zerologr_go_Info (fst (V lg v st)) msg kvs s =
               Inr (s\<lparr>emitted := emitted s @
                 [(\<lparr>ev_logger = l_zerolog lg, ev_level = InfoLevel,
                    ev_fields = Int_field ''level'' v #
                      (if prefix lg = [] then [] else [Str_field ''name'' (prefix lg)]) @
                      spec_encodeFields (slice_read s (values (fst (V lg v st)))) @
                      spec_encodeFields kvs\<rparr>,
                   msg)]\<rparr>)))"
proof -
  obtain new st1 where c: "clone lg st = (new, st1)"
    by (cases "clone lg st")
  then have n: "fst (V lg v st) = new\<lparr>verbosity := v\<rparr>"
    by (simp add: V_def)
  from c have p: "prefix new = prefix lg" "l_zerolog new = l_zerolog lg"
    by (auto simp: clone_def split: prod.splits)
  show ?thesis
    unfolding n
    by (simp add: Info_event zerologr_go_Info_event Enabled_spec_tier
        zerologr_go_Enabled_tier spec_tier_def p)
qed


theorem V_unchecked_witness:
  "(-5 :: int) < 2
   \<and> verbosity (fst (V (New 0) (-5) (init_state InfoLevel))) = -5
   \<and> GlobalLevel (snd (V (New 0) (-5) (init_state InfoLevel))) \<le> InfoLevel
   \<and> Enabled (fst (V (New 0) (-5) (init_state InfoLevel)))
        (snd (V (New 0) (-5) (init_state InfoLevel)))
   \<and> Info (fst (V (New 0) (-5) (init_state InfoLevel))) ''hello'' [IString ''a'', IInt 1]
        (snd (V (New 0) (-5) (init_state InfoLevel))) =
      Inr ((snd (V (New 0) (-5) (init_state InfoLevel)))\<lparr>emitted :=
        [(\<lparr>ev_logger = 0, ev_level = InfoLevel,
           ev_fields = [Int_field ''verbosity'' (-5), Interface_field ''a'' (IInt 1)]\<rparr>,
          ''hello'')]\<rparr>)"
proof -
  let ?s = "snd (V (New 0) (-5) (init_state InfoLevel))"
  have g: "GlobalLevel ?s = InfoLevel" "emitted ?s = []"
    by (simp_all add: V_def clone_def copySlice_def make_slice_def copy_builtin_def
        init_state_def Let_def)
  have r: "slice_read ?s (values (fst (V (New 0) (-5) (init_state InfoLevel)))) = []"
    by (simp add: V_def clone_def copySlice_def make_slice_def copy_builtin_def
        slice_read_def New_def NewWithOptions_def nil_slice_def Let_def)
  have e: "spec_encodeFields [IString ''a'', IInt 1] = [Interface_field ''a'' (IInt 1)]"
    using spec_encodeFields_flatten [of "[(''a'', IInt 1)]"] by (simp add: pair_fields_def)
  have p: "prefix (New 0) = []" "l_zerolog (New 0) = 0"
    by (simp_all add: New_def NewWithOptions_def)
  from V_unchecked [of "New 0" "-5" "init_state InfoLevel" ?s "''hello''"
      "[IString ''a'', IInt 1]"]
  show ?thesis
    by (simp add: g r e p)
qed

subsection \<open>Two independent runs of \<^verbatim>\<open>add\<close>\<close>

text \<open>
  Claim C10. \<^verbatim>\<open>Info\<close>, of either file, and \<^verbatim>\<open>Error\<close> run \<^verbatim>\<open>add\<close> twice on the
  same event, first on the accumulated values, then on the arguments of the call,
  and what one run attaches does not depend on the other sequence. So when the
  arguments are pairs with text keys they are all encoded behind whatever the
  accumulated values gave, their diagnostic fields (claims C3 and C4) when they are
  malformed; and when the accumulated values are pairs with text keys they are all
  encoded, followed by whatever the arguments give. For \<^verbatim>\<open>Error\<close> the event exists
  while the global level is at most \<^verbatim>\<open>ErrorLevel\<close>.
\<close>

theorem add_runs_independent:
  "(Enabled lg st \<longrightarrow>
      Info lg msg (flatten_pairs qs) st =
        Inr (st\<lparr>emitted := emitted st @
          [(\<lparr>ev_logger = l_zerolog lg, ev_level = spec_tier (verbosity lg),
             ev_fields = Int_field ''verbosity'' (verbosity lg) #
               (if prefix lg = [] then [] else [Str_field ''name'' (prefix lg)]) @
               spec_encodeFields (slice_read st (values lg)) @ pair_fields qs\<rparr>,
            msg)]\<rparr>))
   \<and> (Enabled lg st \<and> slice_read st (values lg) = flatten_pairs ps \<longrightarrow>
      Info lg msg kvs st =
        Inr (st\<lparr>emitted := emitted st @
          [(\<lparr>ev_logger = l_zerolog lg, ev_level = spec_tier (verbosity lg),
             ev_fields = Int_field ''verbosity'' (verbosity lg) #
               (if prefix lg = [] then [] else [Str_field ''name'' (prefix lg)]) @
               pair_fields ps @ spec_encodeFields kvs\<rparr>,
            msg)]\<rparr>))
   \<and> (zerologr_go_Enabled lg st \<longrightarrow>
      zerologr_go_Info lg msg (flatten_pairs qs) st =
        Inr (st\<lparr>emitted := emitted st @
          [(\<lparr>ev_logger = l_zerolog lg, ev_level = InfoLevel,
             ev_fields = Int_field ''level'' (verbosity lg) #
               (if prefix lg = [] then [] else [Str_field ''name'' (prefix lg)]) @
               spec_encodeFields (slice_read st (values lg)) @ pair_fields qs\<rparr>,
            msg)]\<rparr>))
   \<and> (zerologr_go_Enabled lg st \<and> slice_read st (values lg) = flatten_pairs ps \<longrightarrow>
      zerologr_go_Info lg msg kvs st =
        Inr (st\<lparr>emitted := emitted st @
          [(\<lparr>ev_logger = l_zerolog lg, ev_level = InfoLevel,
             ev_fields = Int_field ''level'' (verbosity lg) #
               (if prefix lg = [] then [] else [Str_field ''name'' (prefix lg)]) @
               pair_fields ps @ spec_encodeFields kvs\<rparr>,
            msg)]\<rparr>))
   \<and> (GlobalLevel st \<le> ErrorLevel \<longrightarrow>
      Error lg err msg (flatten_pairs qs) st =
        Inr (st\<lparr>emitted := emitted st @
          [(\<lparr>ev_logger = l_zerolog lg, ev_level = ErrorLevel,
             ev_fields = Err_field err #
               (if prefix lg = [] then [] else [Str_field ''name'' (prefix lg)]) @
               spec_encodeFields (slice_read st (values lg)) @ pair_fields qs\<rparr>,
            msg)]\<rparr>))
   \<and> (GlobalLevel st \<le> ErrorLevel \<and> slice_read st (values lg) = flatten_pairs ps \<longrightarrow>
      Error lg err msg kvs st =
        Inr (st\<lparr>emitted := emitted st @
          [(\<lparr>ev_logger = l_zerolog lg, ev_level = ErrorLevel,
             ev_fields = Err_field err #
               (if prefix lg = [] then [] else [Str_field ''name'' (prefix lg)]) @
               pair_fields ps @ spec_encodeFields kvs\<rparr>,
            msg)]\<rparr>))"
  by (simp add: Info_event zerologr_go_Info_event Error_event spec_encodeFields_flatten)


theorem add_runs_independent_witness:
  "Enabled (tree_root\<lparr>values := \<lparr>ptr = 0, off = 0, len = 3, cap = 4\<rparr>\<rparr>) tree_state
   \<and> Info (tree_root\<lparr>values := \<lparr>ptr = 0, off = 0, len = 3, cap = 4\<rparr>\<rparr>) ''m''
        [IString ''a'', IInt 1] tree_state =
      Inr (tree_state\<lparr>emitted :=
        [(\<lparr>ev_logger = 0, ev_level = InfoLevel,
           ev_fields =
             [Int_field ''verbosity'' 0,
              Interface_field ''args'' (ISlice [IString ''x'', IInt 0, INil]),
              AnErr_field ''zerologr-err''
                ''odd number of arguments passed as key-value pairs for logging'',
              Stack_field,
              Interface_field ''a'' (IInt 1)]\<rparr>,
          ''m'')]\<rparr>)
   \<and> GlobalLevel tree_state \<le> ErrorLevel
   \<and> slice_read tree_state (values tree_root) = flatten_pairs [(''x'', IInt 0)]
   \<and> Error tree_root None ''m'' [IInt 42, IString ''v''] tree_state =
      Inr (tree_state\<lparr>emitted :=
        [(\<lparr>ev_logger = 0, ev_level = ErrorLevel,
           ev_fields =
             [Err_field None,
              Interface_field ''x'' (IInt 0),
              Interface_field ''invalid key'' (IInt 42),
              AnErr_field ''zerologr-err''
                ''non-string key argument passed to logging, ignoring all later arguments'',
              Stack_field]\<rparr>,
          ''m'')]\<rparr>)"
proof -
  let ?odd = "tree_root\<lparr>values := \<lparr>ptr = 0, off = 0, len = 3, cap = 4\<rparr>\<rparr>"
  have en: "Enabled ?odd tree_state"
    by (simp add: Enabled_spec_tier spec_tier_def tree_root_def tree_state_def)
  have r3: "slice_read tree_state \<lparr>ptr = 0, off = 0, len = 3, cap = 4\<rparr> =
      [IString ''x'', IInt 0, INil]"
    by (simp add: slice_read_def tree_state_def)
  have r2: "slice_read tree_state (values tree_root) = flatten_pairs [(''x'', IInt 0)]"
    by (simp add: slice_read_def tree_state_def tree_root_def)
  have m3: "spec_encodeFields [IString ''x'', IInt 0, INil] =
      [Interface_field ''args'' (ISlice [IString ''x'', IInt 0, INil]),
       AnErr_field ''zerologr-err''
         ''odd number of arguments passed as key-value pairs for logging'',
       Stack_field]"
    by (simp add: spec_encodeFields_def odd_arity_msg_def)
  have m2: "spec_encodeFields [IInt 42, IString ''v''] =
      [Interface_field ''invalid key'' (IInt 42),
       AnErr_field ''zerologr-err''
         ''non-string key argument passed to logging, ignoring all later arguments'',
       Stack_field]"
    by (simp add: spec_encodeFields_def non_string_key_msg_def)
  have e: "emitted tree_state = []" "prefix tree_root = []" "l_zerolog tree_root = 0"
    "verbosity tree_root = 0"
    by (simp_all add: tree_state_def tree_root_def)
  have g: "GlobalLevel tree_state \<le> ErrorLevel"
    by (simp add: tree_state_def InfoLevel_def ErrorLevel_def)
  from add_runs_independent [where lg = ?odd and st = tree_state and msg = "''m''"
      and qs = "[(''a'', IInt 1)]"] en
  have a: "Info ?odd ''m'' [IString ''a'', IInt 1] tree_state =
      Inr (tree_state\<lparr>emitted :=
        [(\<lparr>ev_logger = 0, ev_level = InfoLevel,
           ev_fields =
             [Int_field ''verbosity'' 0,
              Interface_field ''args'' (ISlice [IString ''x'', IInt 0, INil]),
              AnErr_field ''zerologr-err''
                ''odd number of arguments passed as key-value pairs for logging'',
              Stack_field,
              Interface_field ''a'' (IInt 1)]\<rparr>,
          ''m'')]\<rparr>)"
    by (simp add: r3 m3 e spec_tier_def pair_fields_def)
  from add_runs_independent [where lg = tree_root and st = tree_state and msg = "''m''"
      and ps = "[(''x'', IInt 0)]" and kvs = "[IInt 42, IString ''v'']" and err = None] r2 g
  have b: "Error tree_root None ''m'' [IInt 42, IString ''v''] tree_state =
      Inr (tree_state\<lparr>emitted :=
        [(\<lparr>ev_logger = 0, ev_level = ErrorLevel,
           ev_fields =
             [Err_field None,
              Interface_field ''x'' (IInt 0),
              Interface_field ''invalid key'' (IInt 42),
              AnErr_field ''zerologr-err''
                ''non-string key argument passed to logging, ignoring all later arguments'',
              Stack_field]\<rparr>,
          ''m'')]\<rparr>)"
    by (simp add: m2 e pair_fields_def)
  from en a g r2 b show ?thesis by blast
qed

subsection \<open>The two files disagree on tiers and on the event of \<^verbatim>\<open>Info\<close>\<close>

text \<open>
  In \<^verbatim>\<open>src/unnamed/part_001\<close> an enabled \<^verbatim>\<open>Info\<close> whose accumulated values and
  arguments are pairs with text keys hands the sink one event: from the builder of
  the tier of the verbosity, with the field \<^verbatim>\<open>"verbosity"\<close>, the field \<^verbatim>\<open>"name"\<close>
  when the name is not empty, one field per accumulated pair and then one field
  per argument pair, duplicates kept, finalized with the message.
\<close>

lemma Info_part_001_meets_spec:
  assumes "Enabled lg st"
    and "slice_read st (values lg) = flatten_pairs ps"
  shows "Info lg msg (flatten_pairs qs) st =
     Inr (st\<lparr>emitted := emitted st @
       [(\<lparr>ev_logger = l_zerolog lg, ev_level = spec_tier (verbosity lg),
          ev_fields = Int_field ''verbosity'' (verbosity lg) #
            (if prefix lg = [] then [] else [Str_field ''name'' (prefix lg)]) @
            pair_fields ps @ pair_fields qs\<rparr>,
         msg)]\<rparr>)"
  using assms by (simp add: Info_event spec_encodeFields_flatten)

lemma V_New_state:
  "fst (V (New zl) v (init_state g)) =
     \<lparr>l_zerolog = zl, verbosity = v, prefix = [],
      values = \<lparr>ptr = 0, off = 0, len = 0, cap = 0\<rparr>\<rparr>"
  "snd (V (New zl) v (init_state g)) =
     \<lparr>arrays = (\<lambda>a. []), next_addr = 1, GlobalLevel = g, emitted = []\<rparr>"
  by (simp_all add: V_def clone_def copySlice_def make_slice_def copy_builtin_def
      init_state_def New_def NewWithOptions_def nil_slice_def Let_def slice_read_def
      array_write_def fun_eq_iff)

text \<open>The two versions of \<^verbatim>\<open>Enabled\<close> differ at verbosity 7 and nowhere else.\<close>

lemma Enabled_files_agree:
  "verbosity lg \<noteq> 7 \<Longrightarrow> zerologr_go_Enabled lg st = Enabled lg st"
  by (simp add: Enabled_spec_tier zerologr_go_Enabled_tier spec_tier_def)

text \<open>
  The specification's end-to-end example on \<^verbatim>\<open>src/unnamed/part_001\<close>: a root with the
  empty name, global level \<^verbatim>\<open>InfoLevel\<close>, \<^verbatim>\<open>Info("hello", "a", 1)\<close>. One event from the
  \<^verbatim>\<open>Info()\<close> builder with \<^verbatim>\<open>verbosity = 0\<close> and \<^verbatim>\<open>a = 1\<close>, without a name field.
\<close>

lemma Info_end_to_end:
  "Info (New 0) ''hello'' [IString ''a'', IInt 1] (init_state InfoLevel) =
     Inr ((init_state InfoLevel)\<lparr>emitted :=
       [(\<lparr>ev_logger = 0, ev_level = InfoLevel,
          ev_fields = [Int_field ''verbosity'' 0, Interface_field ''a'' (IInt 1)]\<rparr>,
         ''hello'')]\<rparr>)"
proof -
  have e: "spec_encodeFields [IString ''a'', IInt 1] = [Interface_field ''a'' (IInt 1)]"
    using spec_encodeFields_flatten [of "[(''a'', IInt 1)]"] by (simp add: pair_fields_def)
  show ?thesis
    by (simp add: Info_event Enabled_spec_tier spec_tier_def New_def NewWithOptions_def
        init_state_def e)
qed

text \<open>
  Claim C1, at the input where the files part. With the global level at
  \<^verbatim>\<open>DebugLevel\<close>, the instance \<^verbatim>\<open>V(7)\<close> of a fresh root is on the DEBUG tier of the
  specification and enabled by \<^verbatim>\<open>Enabled\<close> of \<^verbatim>\<open>src/unnamed/part_001\<close>, while
  \<^verbatim>\<open>Enabled\<close> of \<^verbatim>\<open>src/zerologr.go\<close>, whose bound for the TRACE tier is 7, answers
  false.
\<close>

theorem zerologr_go_Enabled_at_7:
  "spec_tier 7 = DebugLevel
   \<and> GlobalLevel (snd (V (New 0) 7 (init_state DebugLevel))) = DebugLevel
   \<and> Enabled (fst (V (New 0) 7 (init_state DebugLevel)))
        (snd (V (New 0) 7 (init_state DebugLevel))) = True
   \<and> zerologr_go_Enabled (fst (V (New 0) 7 (init_state DebugLevel)))
        (snd (V (New 0) 7 (init_state DebugLevel))) = False"
  by (simp add: V_New_state Enabled_spec_tier zerologr_go_Enabled_tier spec_tier_def
      DebugLevel_def TraceLevel_def)

text \<open>
  Claim C2, at an input where the files part. With the global level at
  \<^verbatim>\<open>DebugLevel\<close>, \<^verbatim>\<open>Info("hello", "a", 1)\<close> on the instance \<^verbatim>\<open>V(2)\<close> of a fresh root
  is enabled in both files. \<^verbatim>\<open>src/unnamed/part_001\<close> hands the sink an event from
  the \<^verbatim>\<open>Debug()\<close> builder with the field \<^verbatim>\<open>"verbosity"\<close>; \<^verbatim>\<open>src/zerologr.go\<close> hands it
  an event from the \<^verbatim>\<open>Info()\<close> builder with the field \<^verbatim>\<open>"level"\<close>.
\<close>

theorem zerologr_go_Info_at_2:
  "Info (fst (V (New 0) 2 (init_state DebugLevel))) ''hello'' [IString ''a'', IInt 1]
        (snd (V (New 0) 2 (init_state DebugLevel))) =
      Inr ((snd (V (New 0) 2 (init_state DebugLevel)))\<lparr>emitted :=
        [(\<lparr>ev_logger = 0, ev_level = DebugLevel,
           ev_fields = [Int_field ''verbosity'' 2, Interface_field ''a'' (IInt 1)]\<rparr>,
          ''hello'')]\<rparr>)
   \<and> zerologr_go_Info (fst (V (New 0) 2 (init_state DebugLevel))) ''hello''
        [IString ''a'', IInt 1] (snd (V (New 0) 2 (init_state DebugLevel))) =
      Inr ((snd (V (New 0) 2 (init_state DebugLevel)))\<lparr>emitted :=
        [(\<lparr>ev_logger = 0, ev_level = InfoLevel,
           ev_fields = [Int_field ''level'' 2, Interface_field ''a'' (IInt 1)]\<rparr>,
          ''hello'')]\<rparr>)"
proof -
  have e: "spec_encodeFields [IString ''a'', IInt 1] = [Interface_field ''a'' (IInt 1)]"
    using spec_encodeFields_flatten [of "[(''a'', IInt 1)]"] by (simp add: pair_fields_def)
  show ?thesis
    by (simp add: V_New_state Info_event zerologr_go_Info_event Enabled_spec_tier
        zerologr_go_Enabled_tier spec_tier_def e slice_read_def DebugLevel_def InfoLevel_def)
qed

subsection \<open>Derivation never writes to memory that exists\<close>

lemma frame_trans: "frame st st1 \<Longrightarrow> frame st1 st2 \<Longrightarrow> frame st st2"
  by (auto simp: frame_def)

lemma slice_read_length: "valid_slice st s \<Longrightarrow> length (slice_read st s) = len s"
  by (auto simp: valid_slice_def slice_read_def)

lemma frame_slice:
  assumes "frame st st'" "valid_slice st s"
  shows "slice_read st' s = slice_read st s" and "valid_slice st' s"
proof -
  show "slice_read st' s = slice_read st s"
  proof (cases "cap s = 0")
    case True
    with assms(2) show ?thesis by (simp add: valid_slice_def slice_read_def)
  next
    case False
    with assms show ?thesis by (simp add: valid_slice_def slice_read_def frame_def)
  qed
  show "valid_slice st' s"
    using assms by (auto simp: valid_slice_def frame_def)
qed

lemma array_write_all: "length xs = length a \<Longrightarrow> array_write a 0 xs = xs"
  by (simp add: array_write_def)

lemma array_write_none: "array_write a i [] = a"
  by (simp add: array_write_def)

lemma copySlice_result:
  assumes v: "valid_slice st s" and c: "copySlice s st = (out, st')"
  shows "out = \<lparr>ptr = next_addr st, off = 0, len = len s, cap = len s\<rparr>"
    and "arrays st' (next_addr st) = slice_read st s"
    and "next_addr st' = next_addr st + 1"
    and "frame st st'"
proof -
  let ?a = "next_addr st"
  let ?st1 = "st\<lparr>arrays := (arrays st)(?a := replicate (len s) INil), next_addr := ?a + 1\<rparr>"
  have f1: "frame st ?st1" by (simp add: frame_def)
  have r1: "slice_read ?st1 s = slice_read st s"
    using frame_slice(1)[OF f1 v] .
  from c show o: "out = \<lparr>ptr = ?a, off = 0, len = len s, cap = len s\<rparr>"
    by (simp add: copySlice_def make_slice_def)
  from c have st': "st' = copy_builtin \<lparr>ptr = ?a, off = 0, len = len s, cap = len s\<rparr> s ?st1"
    by (auto simp: copySlice_def make_slice_def)
  have w: "array_write (replicate (len s) INil) 0 (slice_read st s) = slice_read st s"
    by (rule array_write_all) (simp add: slice_read_length[OF v])
  have tk: "take (len s) (slice_read st s) = slice_read st s"
    by (simp add: slice_read_length[OF v])
  show "arrays st' ?a = slice_read st s"
    using r1 w tk by (simp add: st' copy_builtin_def)
  show "next_addr st' = ?a + 1"
    by (simp add: st' copy_builtin_def)
  show "frame st st'"
    by (simp add: st' copy_builtin_def frame_def)
qed

lemma copySlice_read:
  assumes v: "valid_slice st s" and c: "copySlice s st = (out, st')"
  shows "slice_read st' out = slice_read st s" and "valid_slice st' out"
proof -
  note r = copySlice_result[OF v c]
  show "slice_read st' out = slice_read st s"
    by (simp add: slice_read_def r(1) r(2)[unfolded slice_read_def])
  have "length (arrays st' (next_addr st)) = len s"
    using r(2) slice_read_length[OF v] by simp
  then show "valid_slice st' out"
    by (simp add: valid_slice_def r(1) r(3))
qed

text \<open>A clone reads as its source and owns an array that is full.\<close>

lemma clone_result:
  assumes v: "valid_slice st (values lg)" and c: "clone lg st = (new, st')"
  shows "new = lg\<lparr>values := values new\<rparr>"
    and "cap (values new) = len (values new)"
    and "slice_read st' (values new) = slice_read st (values lg)"
    and "valid_slice st' (values new)"
    and "frame st st'"
proof -
  obtain out where cs: "copySlice (values lg) st = (out, st')" and n: "new = lg\<lparr>values := out\<rparr>"
    using c by (auto simp: clone_def split: prod.splits)
  note r = copySlice_result[OF v cs] copySlice_read[OF v cs]
  show "new = lg\<lparr>values := values new\<rparr>" using n by simp
  show "cap (values new) = len (values new)" using n r(1) by simp
  show "slice_read st' (values new) = slice_read st (values lg)" using n r(5) by simp
  show "valid_slice st' (values new)" using n r(6) by simp
  show "frame st st'" by (rule r(4))
qed

text \<open>Appending to a full slice: nothing that exists is written.\<close>

lemma append_builtin_full:
  assumes vs: "valid_slice st s" and full: "cap s = len s"
    and a: "append_builtin slack s xs st = (r, st')"
  shows "slice_read st' r = slice_read st s @ slice_read st xs"
    and "valid_slice st' r"
    and "frame st st'"
proof -
  let ?el = "slice_read st xs"
  let ?n = "len s + length ?el"
  show "slice_read st' r = slice_read st s @ slice_read st xs"
  proof (cases "?el = []")
    case True
    with a full have "r = s" "st' = st\<lparr>arrays := (arrays st)(ptr s := arrays st (ptr s))\<rparr>"
      by (auto simp: append_builtin_def array_write_none Let_def)
    then show ?thesis using True by (simp add: slice_read_def)
  next
    case False
    then have "\<not> ?n \<le> cap s" using full by simp
    with a have "r = \<lparr>ptr = next_addr st, off = 0, len = ?n, cap = ?n + slack (cap s) ?n\<rparr>"
      "arrays st' (next_addr st) = slice_read st s @ ?el @ replicate (slack (cap s) ?n) INil"
      by (auto simp: append_builtin_def Let_def)
    moreover have "slice_read st' r = take (len r) (drop (off r) (arrays st' (ptr r)))"
      by (simp add: slice_read_def)
    ultimately show ?thesis
      by (simp add: slice_read_length[OF vs])
  qed
  show "valid_slice st' r"
  proof (cases "?el = []")
    case True
    with a full have "r = s" "st' = st\<lparr>arrays := (arrays st)(ptr s := arrays st (ptr s))\<rparr>"
      by (auto simp: append_builtin_def array_write_none Let_def)
    then show ?thesis using vs by (simp add: valid_slice_def)
  next
    case False
    then have "\<not> ?n \<le> cap s" using full by simp
    with a have "r = \<lparr>ptr = next_addr st, off = 0, len = ?n, cap = ?n + slack (cap s) ?n\<rparr>"
      "arrays st' (next_addr st) = slice_read st s @ ?el @ replicate (slack (cap s) ?n) INil"
      "next_addr st' = next_addr st + 1"
      by (auto simp: append_builtin_def Let_def)
    then show ?thesis
      by (simp add: valid_slice_def slice_read_length[OF vs])
  qed
  show "frame st st'"
  proof (cases "?el = []")
    case True
    with a full have "st' = st\<lparr>arrays := (arrays st)(ptr s := arrays st (ptr s))\<rparr>"
      by (auto simp: append_builtin_def array_write_none Let_def)
    then show ?thesis by (simp add: frame_def)
  next
    case False
    then have "\<not> ?n \<le> cap s" using full by simp
    with a show ?thesis
      by (auto simp: append_builtin_def Let_def frame_def)
  qed
qed

lemma V_result:
  assumes v: "valid_slice st (values lg)" and c: "V lg x st = (new, st')"
  shows "frame st st'" and "valid_slice st' (values new)"
    and "slice_read st' (values new) = slice_read st (values lg)"
proof -
  obtain n0 where cl: "clone lg st = (n0, st')" and n: "new = n0\<lparr>verbosity := x\<rparr>"
    using c by (auto simp: V_def split: prod.splits)
  note r = clone_result[OF v cl]
  show "frame st st'" by (rule r(5))
  show "valid_slice st' (values new)" using n r(4) by simp
  show "slice_read st' (values new) = slice_read st (values lg)" using n r(3) by simp
qed

lemma WithName_result:
  assumes v: "valid_slice st (values lg)" and c: "WithName lg name st = (new, st')"
  shows "frame st st'" and "valid_slice st' (values new)"
    and "slice_read st' (values new) = slice_read st (values lg)"
proof -
  obtain n0 where cl: "clone lg st = (n0, st')" and n: "values new = values n0"
    using c by (auto simp: WithName_def Let_def split: prod.splits if_splits)
  note r = clone_result[OF v cl]
  show "frame st st'" by (rule r(5))
  show "valid_slice st' (values new)" using n r(4) by simp
  show "slice_read st' (values new) = slice_read st (values lg)" using n r(3) by simp
qed

lemma WithValues_result:
  assumes v: "valid_slice st (values lg)" and k: "valid_slice st kvList"
    and c: "WithValues slack lg kvList st = (new, st')"
  shows "frame st st'" and "valid_slice st' (values new)"
    and "slice_read st' (values new) = slice_read st (values lg) @ slice_read st kvList"
proof -
  obtain n0 st1 vs where cl: "clone lg st = (n0, st1)"
    and ap: "append_builtin slack (values n0) kvList st1 = (vs, st')"
    and n: "new = n0\<lparr>values := vs\<rparr>"
    using c by (auto simp: WithValues_def split: prod.splits)
  note r = clone_result[OF v cl]
  note a = append_builtin_full[OF r(4) r(2) ap]
  have kr: "slice_read st1 kvList = slice_read st kvList"
    by (rule frame_slice(1)[OF r(5) k])
  show "frame st st'" by (rule frame_trans[OF r(5) a(3)])
  show "valid_slice st' (values new)" using n a(2) by simp
  show "slice_read st' (values new) = slice_read st (values lg) @ slice_read st kvList"
    using n a(1) r(3) kr by simp
qed

text \<open>
  What \<^verbatim>\<open>clone\<close> is for: \<^verbatim>\<open>append\<close> on the slice of \<open>tree_root\<close> itself, which has
  spare capacity, writes into the shared array, and a second \<^verbatim>\<open>append\<close> overwrites
  what the first result reads.
\<close>

lemma append_without_clone_aliases:
  "slice_read
     (snd (append_builtin slack (values tree_root) args_b
        (snd (append_builtin slack (values tree_root) args_a tree_state))))
     (fst (append_builtin slack (values tree_root) args_a tree_state)) =
   [IString ''x'', IInt 0, IString ''b'', IInt 2]"
  by (simp add: append_builtin_def tree_root_def tree_state_def args_a_def args_b_def
      slice_read_def array_write_def Let_def)

text \<open>
  Claim C8. Let \<open>R\<close> hold a valid slice, whatever its spare capacity, and derive
  from it in turn \<open>A\<close> by \<^verbatim>\<open>WithValues(kvA...)\<close>, \<open>B\<close> by \<^verbatim>\<open>WithValues(kvB...)\<close>, \<open>N\<close> by
  \<^verbatim>\<open>V(v)\<close> and \<open>M\<close> by \<^verbatim>\<open>WithName(name)\<close>. After each step the accumulated values
  of \<open>R\<close> read as before the first. \<open>A\<close> reads as \<open>R\<close> followed by \<open>kvA\<close> and \<open>B\<close> as
  \<open>R\<close> followed by \<open>kvB\<close>, also after the later derivations, so neither sibling sees
  what the other appended; \<open>N\<close> and \<open>M\<close> read as \<open>R\<close>.
\<close>

theorem derivations_leave_source:
  assumes R: "valid_slice st (values R)"
    and kA: "valid_slice st kvA" and kB: "valid_slice st kvB"
    and A: "WithValues slack R kvA st = (A, st1)"
    and B: "WithValues slack R kvB st1 = (B, st2)"
    and N: "V R v st2 = (N, st3)"
    and M: "WithName R name st3 = (M, st4)"
  shows "slice_read st1 (values R) = slice_read st (values R)
    \<and> slice_read st2 (values R) = slice_read st (values R)
    \<and> slice_read st3 (values R) = slice_read st (values R)
    \<and> slice_read st4 (values R) = slice_read st (values R)
    \<and> slice_read st1 (values A) = slice_read st (values R) @ slice_read st kvA
    \<and> slice_read st2 (values A) = slice_read st (values R) @ slice_read st kvA
    \<and> slice_read st4 (values A) = slice_read st (values R) @ slice_read st kvA
    \<and> slice_read st2 (values B) = slice_read st (values R) @ slice_read st kvB
    \<and> slice_read st4 (values B) = slice_read st (values R) @ slice_read st kvB
    \<and> slice_read st3 (values N) = slice_read st (values R)
    \<and> slice_read st4 (values N) = slice_read st (values R)
    \<and> slice_read st4 (values M) = slice_read st (values R)"
proof -
  note a = WithValues_result[OF R kA A]
  have R1: "valid_slice st1 (values R)" "slice_read st1 (values R) = slice_read st (values R)"
    using frame_slice[OF a(1) R] by simp_all
  have kB1: "valid_slice st1 kvB" "slice_read st1 kvB = slice_read st kvB"
    using frame_slice[OF a(1) kB] by simp_all
  note b = WithValues_result[OF R1(1) kB1(1) B]
  have R2: "valid_slice st2 (values R)" "slice_read st2 (values R) = slice_read st (values R)"
    using frame_slice[OF b(1) R1(1)] R1(2) by simp_all
  have A2: "valid_slice st2 (values A)" "slice_read st2 (values A) = slice_read st1 (values A)"
    using frame_slice[OF b(1) a(2)] by simp_all
  note n = V_result[OF R2(1) N]
  have R3: "valid_slice st3 (values R)" "slice_read st3 (values R) = slice_read st (values R)"
    using frame_slice[OF n(1) R2(1)] R2(2) by simp_all
  have A3: "valid_slice st3 (values A)" "slice_read st3 (values A) = slice_read st1 (values A)"
    using frame_slice[OF n(1) A2(1)] A2(2) by simp_all
  have B3: "valid_slice st3 (values B)" "slice_read st3 (values B) = slice_read st2 (values B)"
    using frame_slice[OF n(1) b(2)] by simp_all
  note m = WithName_result[OF R3(1) M]
  have R4: "slice_read st4 (values R) = slice_read st (values R)"
    using frame_slice(1)[OF m(1) R3(1)] R3(2) by simp
  have A4: "slice_read st4 (values A) = slice_read st1 (values A)"
    using frame_slice(1)[OF m(1) A3(1)] A3(2) by simp
  have B4: "slice_read st4 (values B) = slice_read st2 (values B)"
    using frame_slice(1)[OF m(1) B3(1)] B3(2) by simp
  have N4: "slice_read st4 (values N) = slice_read st3 (values N)"
    using frame_slice(1)[OF m(1) n(2)] by simp
  show ?thesis
    using R1(2) R2(2) R3(2) R4 a(3) A2(2) A4 b(3) B4 n(3) N4 m(3) kB1(2)
    by simp
qed

theorem derivations_leave_source_witness:
  "valid_slice tree_state (values tree_root)
   \<and> valid_slice tree_state args_a \<and> valid_slice tree_state args_b
   \<and> cap (values tree_root) = 4
   \<and> slice_read tree_state (values tree_root) = [IString ''x'', IInt 0]
   \<and> slice_read (snd branch_n) (values tree_root) = [IString ''x'', IInt 0]
   \<and> slice_read (snd branch_n) (values (fst branch_a)) =
       [IString ''x'', IInt 0, IString ''a'', IInt 1]
   \<and> slice_read (snd branch_n) (values (fst branch_b)) =
       [IString ''x'', IInt 0, IString ''b'', IInt 2]
   \<and> slice_read (snd branch_n) (values (fst branch_v)) = [IString ''x'', IInt 0]
   \<and> slice_read (snd branch_n) (values (fst branch_n)) = [IString ''x'', IInt 0]"
proof -
  have R: "valid_slice tree_state (values tree_root)"
    by (simp add: valid_slice_def tree_state_def tree_root_def)
  have kA: "valid_slice tree_state args_a"
    by (simp add: valid_slice_def tree_state_def args_a_def)
  have kB: "valid_slice tree_state args_b"
    by (simp add: valid_slice_def tree_state_def args_b_def)
  have A: "WithValues (\<lambda>c n. n) tree_root args_a tree_state = (fst branch_a, snd branch_a)"
    by (simp add: branch_a_def)
  have B: "WithValues (\<lambda>c n. n) tree_root args_b (snd branch_a) = (fst branch_b, snd branch_b)"
    by (simp add: branch_b_def)
  have N: "V tree_root 3 (snd branch_b) = (fst branch_v, snd branch_v)"
    by (simp add: branch_v_def)
  have M: "WithName tree_root ''db'' (snd branch_v) = (fst branch_n, snd branch_n)"
    by (simp add: branch_n_def)
  have r: "slice_read tree_state (values tree_root) = [IString ''x'', IInt 0]"
    "slice_read tree_state args_a = [IString ''a'', IInt 1]"
    "slice_read tree_state args_b = [IString ''b'', IInt 2]"
    "cap (values tree_root) = 4"
    by (simp_all add: slice_read_def tree_state_def tree_root_def args_a_def args_b_def)
  from derivations_leave_source [OF R kA kB A B N M] R kA kB r
  show ?thesis by simp
qed

end
